theory Spec2Isabelle
  imports Complex_Main "HOL-Library.AList"
begin

section \<open>Data model of src/ml/versioning.py\<close>

text \<open>
  The trained model object (\<open>model: Any\<close>) is opaque to the registry; it is identified
  with the bytes \<open>joblib.dump\<close> writes for it. Python floats (metric values, training
  duration) are abstracted as rationals; a dict is an association list in insertion order,
  read with \<open>map_of\<close> and written with \<open>AList.update\<close>. Strings are ASCII.
\<close>

type_synonym artifact = string

record ModelVersion =
  version :: string
  model_name :: string
  model_type :: string
  created_at :: string
  created_by :: string
  description :: string
  metrics :: "(string \<times> rat) list"
  training_data_hash :: string
  training_samples :: int
  feature_count :: int
  training_duration_seconds :: rat
  model_file :: string
  metadata_file :: string
  status :: string
  is_production :: bool
  tags :: "string list"

record ModelRegistry =
  models :: "(string \<times> ModelVersion list) list"
  current_production :: "(string \<times> string) list"
  last_updated :: string

text \<open>
  Exceptions. Every \<open>raise ValueError(...)\<close> of the source has its own message
  constructor; the remaining constructors are the exceptions of the Python runtime the
  code can meet (\<open>int()\<close>, tuple unpacking, \<open>list.remove\<close>, \<open>xs[-1]\<close>, file access,
  \<open>json.load\<close>, \<open>joblib.load\<close>). \<open>IntConversion s\<close> is the ValueError \<open>int(s)\<close>
  raises (an invalid literal, or more digits than the conversion limit);
  \<open>StrConversion\<close> is the ValueError an f-string raises on an int with more digits than
  that limit.
\<close>

datatype message =
    ModelNotFoundInRegistry string
  | VersionNotFoundForModel string string
  | ModelNotFound string
  | VersionNotFound string
  | VersionsNotFound
  | IntConversion string
  | StrConversion
  | NotEnoughValues nat
  | TooManyValues
  | InvalidIsoformat
  | NotInList

datatype error = ValueError message | IndexError | OSError | DecodeError | UnpicklingError

section \<open>Python string primitives used by the version allocator\<close>

text \<open>
  Strings are lists of 8-bit characters, read as the code points below 256.

  The characters \<open>int()\<close> strips from both ends of its argument: tab to carriage return
  (9 to 13) and space (32); and, since a string with a character outside ASCII has its
  Unicode whitespace mapped to spaces first, next line (133) and no-break space (160).
  The separators 28 to 31 are whitespace for \<open>str.isspace\<close> but not for \<open>int()\<close>.
\<close>

definition int_space :: "char \<Rightarrow> bool" where
  "int_space c =
    (let n = (of_char c :: nat) in (9 \<le> n \<and> n \<le> 13) \<or> n = 32 \<or> n = 133 \<or> n = 160)"

definition strip :: "string \<Rightarrow> string" where
  "strip s = rev (dropWhile int_space (rev (dropWhile int_space s)))"

definition isdigit :: "char \<Rightarrow> bool" where
  "isdigit c = (let n = (of_char c :: nat) in 48 \<le> n \<and> n \<le> 57)"

definition digit_value :: "char \<Rightarrow> nat" where
  "digit_value c = of_char c - 48"

text \<open>
  CPython's default limit on the number of decimal digits in a conversion between
  \<open>int\<close> and \<open>str\<close> (\<open>sys.get_int_max_str_digits()\<close>).
\<close>

definition max_str_digits :: nat where
  "max_str_digits = 4300"

text \<open>\<open>int(s)\<close> after the sign: decimal digits, single underscores between digits.\<close>

fun int_digits :: "nat \<Rightarrow> string \<Rightarrow> nat option" where
  "int_digits acc [] = Some acc"
| "int_digits acc (c # cs) =
    (if isdigit c then int_digits (10 * acc + digit_value c) cs
     else if c = CHR ''_'' then
       (case cs of
          [] \<Rightarrow> None
        | d # ds \<Rightarrow> if isdigit d then int_digits (10 * acc + digit_value d) ds else None)
     else None)"

text \<open>The digits are counted without the underscores; too many of them is an error.\<close>

definition int_unsigned :: "string \<Rightarrow> nat option" where
  "int_unsigned s =
    (case s of
       [] \<Rightarrow> None
     | c # cs \<Rightarrow>
         if isdigit c then
           (if length (filter isdigit s) > max_str_digits then None
            else int_digits (digit_value c) cs)
         else None)"

text \<open>\<open>int(s)\<close> for a string: \<open>None\<close> where Python raises ValueError.\<close>

definition py_int :: "string \<Rightarrow> int option" where
  "py_int s =
    (case strip s of
       [] \<Rightarrow> None
     | c # cs \<Rightarrow>
         if c = CHR ''-'' then map_option (\<lambda>n. - int n) (int_unsigned cs)
         else if c = CHR ''+'' then map_option int (int_unsigned cs)
         else map_option int (int_unsigned (c # cs)))"

definition digit_char :: "nat \<Rightarrow> char" where
  "digit_char d = char_of (48 + d)"

fun str_nat :: "nat \<Rightarrow> string" where
  "str_nat n = (if n < 10 then [digit_char n] else str_nat (n div 10) @ [digit_char (n mod 10)])"

declare str_nat.simps [simp del]

text \<open>The decimal text of an int, and the number of its digits.\<close>

definition decimal :: "int \<Rightarrow> string" where
  "decimal i = (if i < 0 then CHR ''-'' # str_nat (nat (- i)) else str_nat (nat i))"

definition digits :: "int \<Rightarrow> nat" where
  "digits i = length (str_nat (nat \<bar>i\<bar>))"

text \<open>
  \<open>str(i)\<close>, as the f-strings of the allocator format an int: \<open>None\<close> where Python
  raises ValueError because the int has more digits than the limit.
\<close>

definition py_str :: "int \<Rightarrow> string option" where
  "py_str i = (if digits i > max_str_digits then None else Some (decimal i))"

text \<open>\<open>s.split('.')\<close>\<close>

fun split_dot :: "string \<Rightarrow> string list" where
  "split_dot [] = [[]]"
| "split_dot (c # cs) =
    (if c = CHR ''.'' then [] # split_dot cs
     else (c # hd (split_dot cs)) # tl (split_dot cs))"

text \<open>
  \<open>major, minor, patch = map(int, latest.split('.'))\<close>: the map is lazy, so the unpacking
  converts the parts one at a time, fails on the first bad literal, on a missing part, or,
  after three parts, on a fourth one (which it converts before complaining).
\<close>

definition unpack3 :: "string list \<Rightarrow> error + (int \<times> int \<times> int)" where
  "unpack3 parts =
    (case parts of
       [] \<Rightarrow> Inl (ValueError (NotEnoughValues 0))
     | a # r1 \<Rightarrow>
       (case py_int a of
          None \<Rightarrow> Inl (ValueError (IntConversion a))
        | Some x \<Rightarrow>
          (case r1 of
             [] \<Rightarrow> Inl (ValueError (NotEnoughValues 1))
           | b # r2 \<Rightarrow>
             (case py_int b of
                None \<Rightarrow> Inl (ValueError (IntConversion b))
              | Some y \<Rightarrow>
                (case r2 of
                   [] \<Rightarrow> Inl (ValueError (NotEnoughValues 2))
                 | c # r3 \<Rightarrow>
                   (case py_int c of
                      None \<Rightarrow> Inl (ValueError (IntConversion c))
                    | Some z \<Rightarrow>
                      (case r3 of
                         [] \<Rightarrow> Inr (x, y, z)
                       | d # r4 \<Rightarrow>
                         (case py_int d of
                            None \<Rightarrow> Inl (ValueError (IntConversion d))
                          | Some w \<Rightarrow> Inl (ValueError TooManyValues)))))))))"

definition parse_version :: "string \<Rightarrow> error + (int \<times> int \<times> int)" where
  "parse_version latest = unpack3 (split_dot latest)"

text \<open>The text \<open>major.minor.patch\<close> of a version triple.\<close>

definition format_version :: "int \<Rightarrow> int \<Rightarrow> int \<Rightarrow> string" where
  "format_version major minor patch = decimal major @ ''.'' @ decimal minor @ ''.'' @ decimal patch"

section \<open>Version allocator\<close>

text \<open>\<open>GATIModelVersioning._get_next_version\<close>\<close>

definition get_next_version :: "ModelRegistry \<Rightarrow> string \<Rightarrow> string \<Rightarrow> error + string" where
  "get_next_version reg name bump =
    (case map_of (models reg) name of
       None \<Rightarrow> Inr ''1.0.0''
     | Some line \<Rightarrow>
         if line = [] then Inr ''1.0.0''
         else
           (case parse_version (version (last line)) of
              Inl e \<Rightarrow> Inl e
            | Inr (major, minor, patch) \<Rightarrow>
                if bump = ''major'' then
                  (case py_str (major + 1) of
                     None \<Rightarrow> Inl (ValueError StrConversion)
                   | Some a \<Rightarrow> Inr (a @ ''.0.0''))
                else if bump = ''minor'' then
                  (case py_str major of
                     None \<Rightarrow> Inl (ValueError StrConversion)
                   | Some a \<Rightarrow>
                     (case py_str (minor + 1) of
                        None \<Rightarrow> Inl (ValueError StrConversion)
                      | Some b \<Rightarrow> Inr (a @ ''.'' @ b @ ''.0'')))
                else
                  (case py_str major of
                     None \<Rightarrow> Inl (ValueError StrConversion)
                   | Some a \<Rightarrow>
                     (case py_str minor of
                        None \<Rightarrow> Inl (ValueError StrConversion)
                      | Some b \<Rightarrow>
                        (case py_str (patch + 1) of
                           None \<Rightarrow> Inl (ValueError StrConversion)
                         | Some c \<Rightarrow> Inr (a @ ''.'' @ b @ ''.'' @ c))))))"

section \<open>Persistent state\<close>

text \<open>
  The registry document \<open>registry.json\<close> is either a JSON object (each of its three keys
  may be missing, \<open>data.get\<close> supplies the default) or something \<open>json.load\<close> and
  the \<open>ModelVersion(**v)\<close> constructor do not accept; an empty or truncated file is of
  the second kind. A version directory \<open>base_dir/model_name/version\<close> holds files by
  name.
\<close>

record registry_dict =
  d_models :: "(string \<times> ModelVersion list) list option"
  d_current_production :: "(string \<times> string) list option"
  d_last_updated :: "string option"

datatype content = Malformed | Document registry_dict

datatype stored_file = Joblib artifact | Metadata ModelVersion

record lineage_entry =
  h_version :: string
  h_created_at :: string
  h_created_by :: string
  h_description :: string
  h_status :: string
  h_is_production :: bool
  h_training_data_hash :: string
  h_training_samples :: int
  h_metrics :: "(string \<times> rat) list"

record lineage =
  l_model_name :: string
  generated_at :: string
  total_versions :: nat
  l_current_production :: "string option"
  version_history :: "lineage_entry list"

record filesystem =
  registry_file :: "content option"
  version_dirs :: "((string \<times> string) \<times> (string \<times> stored_file) list) list"
  reports :: "(string \<times> lineage) list"

record versioning =
  registry :: ModelRegistry
  fs :: filesystem

text \<open>\<open>ModelRegistry()\<close>\<close>

definition empty_registry :: ModelRegistry where
  "empty_registry = \<lparr>models = [], current_production = [], last_updated = []\<rparr>"

text \<open>\<open>ModelRegistry.to_dict\<close>\<close>

definition to_dict :: "ModelRegistry \<Rightarrow> registry_dict" where
  "to_dict r = \<lparr>d_models = Some (models r),
               d_current_production = Some (current_production r),
               d_last_updated = Some (last_updated r)\<rparr>"

text \<open>The body of the \<open>try\<close> block of \<open>_load_registry\<close>.\<close>

definition read_registry :: "content \<Rightarrow> error + ModelRegistry" where
  "read_registry c =
    (case c of
       Malformed \<Rightarrow> Inl DecodeError
     | Document d \<Rightarrow>
         Inr \<lparr>models = (case d_models d of None \<Rightarrow> [] | Some m \<Rightarrow> m),
              current_production = (case d_current_production d of None \<Rightarrow> [] | Some p \<Rightarrow> p),
              last_updated = (case d_last_updated d of None \<Rightarrow> [] | Some t \<Rightarrow> t)\<rparr>)"

text \<open>
  \<open>GATIModelVersioning._load_registry\<close>: any exception of the \<open>try\<close> block is caught
  and logged, and the function falls through to \<open>return ModelRegistry()\<close>.
\<close>

definition load_registry :: "filesystem \<Rightarrow> ModelRegistry" where
  "load_registry f =
    (case registry_file f of
       None \<Rightarrow> empty_registry
     | Some c \<Rightarrow> (case read_registry c of Inr r \<Rightarrow> r | Inl e \<Rightarrow> empty_registry))"

text \<open>\<open>GATIModelVersioning.__init__\<close>\<close>

definition init :: "filesystem \<Rightarrow> versioning" where
  "init f = \<lparr>registry = load_registry f, fs = f\<rparr>"

text \<open>
  \<open>open(self.registry_file, 'w')\<close> creates or truncates the document itself;
  \<open>json.dump\<close> followed by the end of the \<open>with\<close> block leaves the serialised
  registry in it.
\<close>

definition open_w :: "filesystem \<Rightarrow> filesystem" where
  "open_w f = f\<lparr>registry_file := Some Malformed\<rparr>"

definition json_dump :: "registry_dict \<Rightarrow> filesystem \<Rightarrow> filesystem" where
  "json_dump d f = f\<lparr>registry_file := Some (Document d)\<rparr>"

text \<open>
  Where a commit stops: it completes, \<open>open\<close> raises, or the write is interrupted after
  \<open>open\<close> has truncated the document.
\<close>

datatype fault = NoFault | OpenFails | WriteFails

text \<open>\<open>GATIModelVersioning._save_registry\<close>; \<open>now\<close> is \<open>datetime.now().isoformat()\<close>.\<close>

definition save_registry :: "fault \<Rightarrow> string \<Rightarrow> versioning \<Rightarrow> (error + unit) \<times> versioning" where
  "save_registry flt now s =
    (let r = (registry s)\<lparr>last_updated := now\<rparr>;
         s1 = s\<lparr>registry := r\<rparr>
     in case flt of
          OpenFails \<Rightarrow> (Inl OSError, s1)
        | WriteFails \<Rightarrow> (Inl OSError, s1\<lparr>fs := open_w (fs s1)\<rparr>)
        | NoFault \<Rightarrow> (Inr (), s1\<lparr>fs := json_dump (to_dict r) (open_w (fs s1))\<rparr>))"

section \<open>Registration and loading\<close>

definition mkdir :: "string \<times> string \<Rightarrow> filesystem \<Rightarrow> filesystem" where
  "mkdir d f =
    (case map_of (version_dirs f) d of
       None \<Rightarrow> f\<lparr>version_dirs := AList.update d [] (version_dirs f)\<rparr>
     | Some files \<Rightarrow> f)"

definition write_file :: "string \<times> string \<Rightarrow> string \<Rightarrow> stored_file \<Rightarrow> filesystem \<Rightarrow> filesystem" where
  "write_file d name x f =
    (case map_of (version_dirs f) d of
       None \<Rightarrow> f
     | Some files \<Rightarrow> f\<lparr>version_dirs := AList.update d (AList.update name x files) (version_dirs f)\<rparr>)"

text \<open>
  The arguments of \<open>register_model\<close>. \<open>a_training_data\<close> is \<open>None\<close> when no training
  data is passed and otherwise the digest \<open>_compute_data_hash\<close> yields for it.
\<close>

record register_args =
  a_model :: artifact
  a_model_name :: string
  a_model_type :: string
  a_description :: string
  a_metrics :: "(string \<times> rat) list"
  a_training_data :: "string option"
  a_training_samples :: int
  a_feature_count :: int
  a_training_duration :: rat
  a_created_by :: string
  a_bump :: string
  a_tags :: "string list option"

text \<open>The \<open>ModelVersion(...)\<close> object \<open>register_model\<close> creates.\<close>

definition new_version :: "string \<Rightarrow> string \<Rightarrow> register_args \<Rightarrow> ModelVersion" where
  "new_version version_str t_created a =
    \<lparr>version = version_str,
     model_name = a_model_name a,
     model_type = a_model_type a,
     created_at = t_created,
     created_by = a_created_by a,
     description = a_description a,
     metrics = a_metrics a,
     training_data_hash = (case a_training_data a of None \<Rightarrow> [] | Some h \<Rightarrow> h),
     training_samples = a_training_samples a,
     feature_count = a_feature_count a,
     training_duration_seconds = a_training_duration a,
     model_file = ''model.joblib'',
     metadata_file = ''metadata.json'',
     status = ''active'',
     is_production = False,
     tags = (case a_tags a of None \<Rightarrow> [] | Some t \<Rightarrow> t)\<rparr>"

text \<open>
  \<open>GATIModelVersioning.register_model\<close>; \<open>t_created\<close> and \<open>t_saved\<close> are the two
  readings of \<open>datetime.now().isoformat()\<close>. The failures modelled are those of the
  allocator and of the commit; the directory and the two files of the version are taken
  to be written (an error there would raise before the registry is touched).
\<close>

definition register_model ::
  "fault \<Rightarrow> string \<Rightarrow> string \<Rightarrow> versioning \<Rightarrow> register_args \<Rightarrow> (error + ModelVersion) \<times> versioning" where
  "register_model flt t_created t_saved s a =
    (case get_next_version (registry s) (a_model_name a) (a_bump a) of
       Inl e \<Rightarrow> (Inl e, s)
     | Inr version_str \<Rightarrow>
         (let model_dir = (a_model_name a, version_str);
              f1 = mkdir model_dir (fs s);
              f2 = write_file model_dir ''model.joblib'' (Joblib (a_model a)) f1;
              v = new_version version_str t_created a;
              f3 = write_file model_dir ''metadata.json'' (Metadata v) f2;
              line = (case map_of (models (registry s)) (a_model_name a) of
                        None \<Rightarrow> [] | Some l \<Rightarrow> l);
              reg = (registry s)\<lparr>models :=
                       AList.update (a_model_name a) (line @ [v]) (models (registry s))\<rparr>
          in case save_registry flt t_saved \<lparr>registry = reg, fs = f3\<rparr> of
               (Inl e, s') \<Rightarrow> (Inl e, s')
             | (Inr u, s') \<Rightarrow> (Inr v, s')))"



section \<open>Promotion\<close>

text \<open>
  \<open>GATIModelVersioning.promote_to_production\<close>. The loop rewrites the flag of every
  record before the \<open>found\<close> check, so the state returned with the error carries the
  rewritten flags.
\<close>

definition promote_to_production ::
  "fault \<Rightarrow> string \<Rightarrow> versioning \<Rightarrow> string \<Rightarrow> string \<Rightarrow> (error + unit) \<times> versioning" where
  "promote_to_production flt t_saved s name ver =
    (case map_of (models (registry s)) name of
       None \<Rightarrow> (Inl (ValueError (ModelNotFound name)), s)
     | Some line \<Rightarrow>
         (let line' = map (\<lambda>v. v\<lparr>is_production := (version v = ver)\<rparr>) line;
              found = (\<exists>v \<in> set line. version v = ver);
              reg = (registry s)\<lparr>models := AList.update name line' (models (registry s))\<rparr>
          in if \<not> found then (Inl (ValueError (VersionNotFound ver)), s\<lparr>registry := reg\<rparr>)
             else save_registry flt t_saved
                    (s\<lparr>registry := reg\<lparr>current_production :=
                                         AList.update name ver (current_production reg)\<rparr>\<rparr>)))"

section \<open>Comparison\<close>

record metric_comparison =
  m_v1 :: rat
  m_v2 :: rat
  m_diff :: rat
  m_improved :: bool

record comparison =
  c_version1 :: string
  c_version2 :: string
  created_at_diff :: int
  metrics_comparison :: "(string \<times> metric_comparison) list"
  training_samples_diff :: int
  feature_count_diff :: int

text \<open>The lookup loop of \<open>compare_versions\<close>: an \<open>if\<close>/\<open>elif\<close> per record.\<close>

definition compare_lookup ::
  "ModelVersion list \<Rightarrow> string \<Rightarrow> string \<Rightarrow> ModelVersion option \<times> ModelVersion option" where
  "compare_lookup line version1 version2 =
    fold (\<lambda>v (v1, v2).
            if version v = version1 then (Some v, v2)
            else if version v = version2 then (v1, Some v)
            else (v1, v2))
         line (None, None)"

text \<open>\<open>d.get(metric, 0)\<close>\<close>

definition get_metric :: "(string \<times> rat) list \<Rightarrow> string \<Rightarrow> rat" where
  "get_metric d metric = (case map_of d metric of None \<Rightarrow> 0 | Some x \<Rightarrow> x)"

text \<open>
  \<open>GATIModelVersioning.compare_versions\<close>. \<open>days a b\<close> stands for
  \<open>(datetime.fromisoformat(a) - datetime.fromisoformat(b)).days\<close>, \<open>None\<close> where
  \<open>fromisoformat\<close> raises. The metric names are visited in first-occurrence order (the
  source iterates a set).
\<close>

definition compare_versions ::
  "(string \<Rightarrow> string \<Rightarrow> int option) \<Rightarrow> versioning \<Rightarrow> string \<Rightarrow> string \<Rightarrow> string \<Rightarrow> error + comparison" where
  "compare_versions days s name version1 version2 =
    (case compare_lookup
            (case map_of (models (registry s)) name of None \<Rightarrow> [] | Some line \<Rightarrow> line)
            version1 version2 of
       (Some v1, Some v2) \<Rightarrow>
         (case days (created_at v2) (created_at v1) of
            None \<Rightarrow> Inl (ValueError InvalidIsoformat)
          | Some d \<Rightarrow>
              Inr \<lparr>c_version1 = version1,
                   c_version2 = version2,
                   created_at_diff = d,
                   metrics_comparison =
                     map (\<lambda>metric.
                            (metric,
                             \<lparr>m_v1 = get_metric (metrics v1) metric,
                              m_v2 = get_metric (metrics v2) metric,
                              m_diff = get_metric (metrics v2) metric - get_metric (metrics v1) metric,
                              m_improved = (get_metric (metrics v2) metric > get_metric (metrics v1) metric)\<rparr>))
                         (remdups (map fst (metrics v1) @ map fst (metrics v2))),
                   training_samples_diff = training_samples v2 - training_samples v1,
                   feature_count_diff = feature_count v2 - feature_count v1\<rparr>)
     | (v1, v2) \<Rightarrow> Inl (ValueError VersionsNotFound))"

section \<open>Lineage export\<close>

text \<open>The dict appended to \<open>version_history\<close> for one record.\<close>

definition history_entry :: "ModelVersion \<Rightarrow> lineage_entry" where
  "history_entry v =
    \<lparr>h_version = version v,
     h_created_at = created_at v,
     h_created_by = created_by v,
     h_description = description v,
     h_status = status v,
     h_is_production = is_production v,
     h_training_data_hash = training_data_hash v,
     h_training_samples = training_samples v,
     h_metrics = metrics v\<rparr>"

text \<open>
  \<open>GATIModelVersioning.export_lineage\<close>; the report is written to \<open>output_path\<close>, and
  that write is taken to succeed.
\<close>

definition export_lineage ::
  "string \<Rightarrow> versioning \<Rightarrow> string \<Rightarrow> string \<Rightarrow> (error + unit) \<times> versioning" where
  "export_lineage now s name output_path =
    (case map_of (models (registry s)) name of
       None \<Rightarrow> (Inl (ValueError (ModelNotFound name)), s)
     | Some line \<Rightarrow>
         (let report = \<lparr>l_model_name = name,
                        generated_at = now,
                        total_versions = length line,
                        l_current_production = map_of (current_production (registry s)) name,
                        version_history = map history_entry line\<rparr>
          in (Inr (), s\<lparr>fs := (fs s)\<lparr>reports := AList.update output_path report (reports (fs s))\<rparr>\<rparr>)))"

section \<open>Retention\<close>

text \<open>\<open>xs[-n:]\<close> for a Python int \<open>n\<close>: the slice start is \<open>-n\<close>, clamped.\<close>

definition last_n :: "int \<Rightarrow> 'a list \<Rightarrow> 'a list" where
  "last_n n xs =
    (let start = - n; len = int (length xs)
     in if start < 0 then drop (nat (max (len + start) 0)) xs
        else drop (nat (min start len)) xs)"

text \<open>
  One iteration of the removal loop of \<open>cleanup_old_versions\<close> on
  (line, version directories, removed). \<open>rmtree_raises\<close> tells for which versions
  \<open>shutil.rmtree\<close> raises; the \<open>except\<close> clause then skips the record.
\<close>

definition remove_version ::
  "(string \<Rightarrow> bool) \<Rightarrow> string \<Rightarrow> ModelVersion \<Rightarrow>
   ModelVersion list \<times> ((string \<times> string) \<times> (string \<times> stored_file) list) list \<times> int \<Rightarrow>
   ModelVersion list \<times> ((string \<times> string) \<times> (string \<times> stored_file) list) list \<times> int" where
  "remove_version rmtree_raises name v st =
    (case st of (line, dirs, removed) \<Rightarrow>
       if map_of dirs (name, version v) \<noteq> None \<and> rmtree_raises (version v)
       then (line, dirs, removed)
       else
         (let dirs' = AList.delete (name, version v) dirs
          in if v \<in> set line then (remove1 v line, dirs', removed + 1)
             else (line, dirs', removed)))"

text \<open>\<open>GATIModelVersioning.cleanup_old_versions\<close>\<close>

definition cleanup_old_versions ::
  "fault \<Rightarrow> (string \<Rightarrow> bool) \<Rightarrow> string \<Rightarrow> versioning \<Rightarrow> string \<Rightarrow> int \<Rightarrow> bool \<Rightarrow>
   (error + int) \<times> versioning" where
  "cleanup_old_versions flt rmtree_raises t_saved s name keep_last_n keep_production =
    (case map_of (models (registry s)) name of
       None \<Rightarrow> (Inr 0, s)
     | Some versions \<Rightarrow>
         (let production_version = map_of (current_production (registry s)) name;
              to_keep = last_n keep_last_n versions;
              to_remove = filter (\<lambda>v. v \<notin> set to_keep) versions;
              to_remove' =
                (if keep_production \<and>
                    (case production_version of None \<Rightarrow> False | Some p \<Rightarrow> p \<noteq> [])
                 then filter (\<lambda>v. Some (version v) \<noteq> production_version) to_remove
                 else to_remove)
          in case fold (remove_version rmtree_raises name) to_remove'
                       (versions, version_dirs (fs s), 0) of
               (line, dirs, removed) \<Rightarrow>
                 (case save_registry flt t_saved
                         \<lparr>registry = (registry s)\<lparr>models :=
                                        AList.update name line (models (registry s))\<rparr>,
                          fs = (fs s)\<lparr>version_dirs := dirs\<rparr>\<rparr> of
                    (Inl e, s') \<Rightarrow> (Inl e, s')
                  | (Inr u, s') \<Rightarrow> (Inr removed, s'))))"

section \<open>Version order and call sequences\<close>

text \<open>Triple-integer comparison of parsed versions.\<close>

definition version_less :: "int \<times> int \<times> int \<Rightarrow> int \<times> int \<times> int \<Rightarrow> bool" where
  "version_less t u =
    (case t of (a, b, c) \<Rightarrow> case u of (x, y, z) \<Rightarrow>
       a < x \<or> (a = x \<and> (b < y \<or> (b = y \<and> c < z))))"

text \<open>The same order on version strings; a string that does not parse is not comparable.\<close>

definition version_lt :: "string \<Rightarrow> string \<Rightarrow> bool" where
  "version_lt v w =
    (case parse_version v of
       Inl e \<Rightarrow> False
     | Inr t \<Rightarrow> (case parse_version w of Inl e \<Rightarrow> False | Inr u \<Rightarrow> version_less t u))"

text \<open>A triple every component of which has no more digits than the conversion limit.\<close>

definition representable :: "int \<times> int \<times> int \<Rightarrow> bool" where
  "representable t =
    (case t of (a, b, c) \<Rightarrow>
       digits a \<le> max_str_digits \<and> digits b \<le> max_str_digits \<and> digits c \<le> max_str_digits)"

text \<open>
  The bump rule in the words of the specification: (major+1, 0, 0) for a major bump,
  (major, minor+1, 0) for a minor bump, (major, minor, patch+1) otherwise. The allocator
  is compared with it below.
\<close>

definition bumped :: "string \<Rightarrow> int \<times> int \<times> int \<Rightarrow> int \<times> int \<times> int" where
  "bumped bump t =
    (case t of (major, minor, patch) \<Rightarrow>
       if bump = ''major'' then (major + 1, 0, 0)
       else if bump = ''minor'' then (major, minor + 1, 0)
       else (major, minor, patch + 1))"


text \<open>A sequence of \<open>register_model\<close> and \<open>promote_to_production\<close> calls.\<close>

datatype call =
    Register fault string string register_args
  | Promote fault string string string

fun perform :: "versioning \<Rightarrow> call \<Rightarrow> versioning" where
  "perform s (Register flt t_created t_saved a) = snd (register_model flt t_created t_saved s a)"
| "perform s (Promote flt t_saved name ver) = snd (promote_to_production flt t_saved s name ver)"

definition run :: "versioning \<Rightarrow> call list \<Rightarrow> versioning" where
  "run s calls = foldl perform s calls"

text \<open>
  The invariants of the data model for one model line: at most one record carries the
  production flag and, if one does, the production pointer names its version.
\<close>

definition production_consistent :: "string option \<Rightarrow> ModelVersion list \<Rightarrow> bool" where
  "production_consistent pointer line =
    (length (filter is_production line) \<le> 1
     \<and> (\<forall>r \<in> set line. is_production r \<longrightarrow> pointer = Some (version r)))"

text \<open>
  A well-formed registry: in every line the versions strictly increase and the
  production flags agree with the pointer.
\<close>

definition registry_invariant :: "ModelRegistry \<Rightarrow> bool" where
  "registry_invariant reg =
    (\<forall>(name, line) \<in> set (models reg).
       map_of (models reg) name = Some line \<longrightarrow>
         sorted_wrt version_lt (map version line)
         \<and> production_consistent (map_of (current_production reg) name) line)"

section \<open>Sample data\<close>

text \<open>Concrete inputs, after the test run at the end of the module.\<close>

definition sample_version :: "string \<Rightarrow> ModelVersion" where
  "sample_version v =
    \<lparr>version = v,
     model_name = ''risk_scorer'',
     model_type = ''classification'',
     created_at = ''2024-01-01T00:00:00'',
     created_by = ''developer'',
     description = ''Initial risk scoring model'',
     metrics = [(''accuracy'', 85 / 100), (''f1'', 82 / 100)],
     training_data_hash = ''0123456789ab'',
     training_samples = 100,
     feature_count = 5,
     training_duration_seconds = 3 / 2,
     model_file = ''model.joblib'',
     metadata_file = ''metadata.json'',
     status = ''active'',
     is_production = False,
     tags = []\<rparr>"

definition sample_args :: register_args where
  "sample_args =
    \<lparr>a_model = ''forest'',
     a_model_name = ''risk_scorer'',
     a_model_type = ''classification'',
     a_description = ''Initial risk scoring model'',
     a_metrics = [(''accuracy'', 85 / 100), (''f1'', 82 / 100)],
     a_training_data = Some ''0123456789ab'',
     a_training_samples = 100,
     a_feature_count = 5,
     a_training_duration = 3 / 2,
     a_created_by = ''developer'',
     a_bump = ''patch'',
     a_tags = None\<rparr>"

definition empty_fs :: filesystem where
  "empty_fs = \<lparr>registry_file = None, version_dirs = [], reports = []\<rparr>"

text \<open>A registry holding two versions of one model, none of them promoted.\<close>

definition sample_registry :: ModelRegistry where
  "sample_registry =
    \<lparr>models = [(''risk_scorer'', [sample_version ''1.0.0'', sample_version ''1.1.0''])],
     current_production = [],
     last_updated = ''2024-01-01T00:00:01''\<rparr>"

definition sample_fs :: filesystem where
  "sample_fs =
    \<lparr>registry_file = Some (Document (to_dict sample_registry)),
     version_dirs =
       [((''risk_scorer'', ''1.0.0''),
           [(''model.joblib'', Joblib ''forest''),
            (''metadata.json'', Metadata (sample_version ''1.0.0''))]),
        ((''risk_scorer'', ''1.1.0''),
           [(''model.joblib'', Joblib ''bigger forest''),
            (''metadata.json'', Metadata (sample_version ''1.1.0''))])],
     reports = []\<rparr>"

definition sample_state :: versioning where
  "sample_state = \<lparr>registry = sample_registry, fs = sample_fs\<rparr>"




text \<open>
  The end-to-end scenario: three registrations of \<open>risk_scorer\<close> (1.0.0, 1.0.1, 1.0.2),
  then the promotion of 1.0.1.
\<close>

definition scenario_state :: versioning where
  "scenario_state =
    run (init empty_fs)
      [Register NoFault ''2024-01-01T00:00:00'' ''2024-01-01T00:00:01'' sample_args,
       Register NoFault ''2024-01-02T00:00:00'' ''2024-01-02T00:00:01'' sample_args,
       Register NoFault ''2024-01-03T00:00:00'' ''2024-01-03T00:00:01'' sample_args,
       Promote NoFault ''2024-01-04T00:00:00'' ''risk_scorer'' ''1.0.1'']"

section \<open>Comparing a version with itself\<close>

lemma compare_lookup_second:
  "snd (fold (\<lambda>v (v1, v2).
            if version v = ver then (Some v, v2)
            else if version v = ver then (v1, Some v)
            else (v1, v2)) line (a, b)) = b"
  by (induction line arbitrary: a) simp_all

lemma compare_lookup_first:
  "fst (fold (\<lambda>v (v1, v2).
            if version v = ver then (Some v, v2)
            else if version v = ver then (v1, Some v)
            else (v1, v2)) line (a, b)) =
   (if filter (\<lambda>r. version r = ver) line = [] then a
    else Some (last (filter (\<lambda>r. version r = ver) line)))"
  by (induction line arbitrary: a) simp_all

lemma compare_lookup_same:
  "compare_lookup line v v =
    (if filter (\<lambda>r. version r = v) line = [] then None
     else Some (last (filter (\<lambda>r. version r = v) line)), None)"
  unfolding compare_lookup_def
  using compare_lookup_first[of v line None None] compare_lookup_second[of v line None None]
  by (simp add: prod_eq_iff)

lemma compare_versions_same:
  "compare_versions days s name v v = Inl (ValueError VersionsNotFound)"
  by (simp add: compare_versions_def compare_lookup_same)

text \<open>
  Claim C10. Whatever the registry holds, comparing a version \<open>v\<close> that exists in a
  model's line with itself raises \<open>ValueError("One or both versions not found")\<close>
  instead of returning a comparison: the \<open>if\<close>/\<open>elif\<close> of the lookup loop binds a
  matching record to the first slot only, so the first slot holds a record of version
  \<open>v\<close> and the second slot stays \<open>None\<close>.
\<close>

theorem compare_same_version_fails:
  assumes "map_of (models (registry s)) name = Some line"
    and "\<exists>r \<in> set line. version r = v"
  shows "(\<exists>r \<in> set line. version r = v \<and> fst (compare_lookup line v v) = Some r)
       \<and> snd (compare_lookup line v v) = None
       \<and> compare_versions days s name v v = Inl (ValueError VersionsNotFound)"
proof -
  let ?hits = "filter (\<lambda>r. version r = v) line"
  from assms(2) have ne: "?hits \<noteq> []"
    by (simp add: filter_empty_conv)
  then have "last ?hits \<in> set ?hits"
    by (rule last_in_set)
  then have "last ?hits \<in> set line \<and> version (last ?hits) = v"
    by simp
  with ne show ?thesis
    by (auto simp: compare_lookup_same compare_versions_same)
qed

theorem compare_same_version_fails_witness:
  "map_of (models (registry sample_state)) ''risk_scorer''
     = Some [sample_version ''1.0.0'', sample_version ''1.1.0'']
   \<and> (\<exists>r \<in> set [sample_version ''1.0.0'', sample_version ''1.1.0'']. version r = ''1.1.0'')
   \<and> compare_versions (\<lambda>a b. Some 0) sample_state ''risk_scorer'' ''1.1.0'' ''1.1.0''
       = Inl (ValueError VersionsNotFound)"
  using compare_same_version_fails
    [of sample_state "''risk_scorer''" "[sample_version ''1.0.0'', sample_version ''1.1.0'']"
        "''1.1.0''" "\<lambda>a b. Some 0"]
  by (simp add: sample_state_def sample_registry_def sample_version_def)

section \<open>Promoting a version that does not exist\<close>

lemma clear_flags:
  "\<forall>r \<in> set line. version r \<noteq> ver \<Longrightarrow>
   map (\<lambda>v. v\<lparr>is_production := (version v = ver)\<rparr>) line
     = map (\<lambda>v. v\<lparr>is_production := False\<rparr>) line"
  by (induction line) simp_all

text \<open>
  Claim C4, as stated, covers every model name, also one the registry has no line for.
  There the failure is \<open>ValueError("Model ... not found")\<close>, not the one about the version:
  promoting \<open>9.9.9\<close> of the unknown model \<open>x\<close> in the empty registry.
\<close>

theorem promote_absent_model_counterexample:
  "map_of (models (registry (init empty_fs))) ''x'' = None
   \<and> promote_to_production NoFault ''2024-01-02T00:00:00'' (init empty_fs) ''x'' ''9.9.9''
       = (Inl (ValueError (ModelNotFound ''x'')), init empty_fs)
   \<and> fst (promote_to_production NoFault ''2024-01-02T00:00:00'' (init empty_fs) ''x'' ''9.9.9'')
       \<noteq> Inl (ValueError (VersionNotFound ''9.9.9''))"
  by (simp add: promote_to_production_def init_def empty_fs_def load_registry_def
      empty_registry_def)

text \<open>
  Claim C4, amended. For every registry state: promoting a version of a model name that
  has a line, when no record of the line carries that version, raises
  \<open>ValueError("Version ... not found")\<close> and leaves the production pointers and the files as
  they were, whatever the commit would have done (in memory the loop has by then cleared
  the production flag of every record of the line); promoting any version of a model name
  that has no line raises \<open>ValueError("Model ... not found")\<close> and changes nothing.
\<close>

theorem promote_missing_version:
  "(map_of (models (registry s)) name = Some line \<and> (\<forall>r \<in> set line. version r \<noteq> ver)
      \<longrightarrow> fst (promote_to_production flt t_saved s name ver) = Inl (ValueError (VersionNotFound ver))
          \<and> current_production (registry (snd (promote_to_production flt t_saved s name ver)))
              = current_production (registry s)
          \<and> map_of (models (registry (snd (promote_to_production flt t_saved s name ver)))) name
              = Some (map (\<lambda>v. v\<lparr>is_production := False\<rparr>) line)
          \<and> fs (snd (promote_to_production flt t_saved s name ver)) = fs s)
   \<and> (map_of (models (registry s)) name = None
      \<longrightarrow> promote_to_production flt t_saved s name ver = (Inl (ValueError (ModelNotFound name)), s))"
  by (simp add: promote_to_production_def Let_def update_conv' clear_flags)

theorem promote_missing_version_witness:
  "map_of (models (registry sample_state)) ''risk_scorer''
     = Some [sample_version ''1.0.0'', sample_version ''1.1.0'']
   \<and> ''9.9.9'' \<notin> set (map version [sample_version ''1.0.0'', sample_version ''1.1.0''])
   \<and> fst (promote_to_production NoFault ''2024-01-02T00:00:00'' sample_state ''risk_scorer'' ''9.9.9'')
       = Inl (ValueError (VersionNotFound ''9.9.9''))
   \<and> current_production (registry (snd (promote_to_production NoFault ''2024-01-02T00:00:00''
         sample_state ''risk_scorer'' ''9.9.9''))) = []
   \<and> map_of (models (registry (init empty_fs))) ''x'' = None
   \<and> promote_to_production NoFault ''2024-01-02T00:00:00'' (init empty_fs) ''x'' ''9.9.9''
       = (Inl (ValueError (ModelNotFound ''x'')), init empty_fs)"
proof -
  have h1: "map_of (models (registry sample_state)) ''risk_scorer''
     = Some [sample_version ''1.0.0'', sample_version ''1.1.0'']"
    by (simp add: sample_state_def sample_registry_def)
  have h2: "\<forall>r \<in> set [sample_version ''1.0.0'', sample_version ''1.1.0'']. version r \<noteq> ''9.9.9''"
    by (simp add: sample_version_def)
  have h3: "''9.9.9'' \<notin> set (map version [sample_version ''1.0.0'', sample_version ''1.1.0''])"
    by (simp add: sample_version_def)
  have h4: "map_of (models (registry (init empty_fs))) ''x'' = None"
    by (simp add: init_def empty_fs_def load_registry_def empty_registry_def)
  have h5: "current_production (registry sample_state) = []"
    by (simp add: sample_state_def sample_registry_def)
  note a = promote_missing_version
    [of sample_state "''risk_scorer''" "[sample_version ''1.0.0'', sample_version ''1.1.0'']"
        "''9.9.9''" NoFault "''2024-01-02T00:00:00''", THEN conjunct1, rule_format, OF conjI, OF h1 h2]
  note b = promote_missing_version
    [of "init empty_fs" "''x''" "[]" "''9.9.9''" NoFault "''2024-01-02T00:00:00''",
        THEN conjunct2, rule_format, OF h4]
  from a[THEN conjunct1] a[THEN conjunct2, THEN conjunct1] h1 h3 h4 h5 b show ?thesis
    by (simp only: simp_thms)
qed

section \<open>Loading the registry document\<close>




section \<open>Cleanup with nothing to remove\<close>





section \<open>Committing the registry document\<close>

lemma read_to_dict: "read_registry (Document (to_dict r)) = Inr r"
  by (simp add: read_registry_def to_dict_def)

text \<open>
  Claim C2, as stated, asks that a commit interrupted before it completes leaves the next
  load returning the pre-commit document. The code opens \<open>registry.json\<close> itself with
  mode \<open>'w'\<close>, which truncates it: before the commit the document loads as the sample
  registry, after a commit interrupted during the write it loads as the empty registry.
\<close>

theorem commit_failure_counterexample:
  "load_registry (fs sample_state) = sample_registry
   \<and> load_registry (fs (snd (save_registry WriteFails ''2024-01-02T00:00:00'' sample_state)))
       = empty_registry
   \<and> sample_registry \<noteq> empty_registry"
  by (simp add: save_registry_def Let_def open_w_def load_registry_def read_registry_def
        sample_state_def sample_fs_def to_dict_def sample_registry_def empty_registry_def)

text \<open>
  Claim C2, amended. A commit writes the registry document in place: it opens the document
  itself for writing, which truncates it, and dumps the registry into it; no other file is
  created or renamed. A commit that completes is observable by the next load. A commit
  that fails before the document is opened leaves the prior document as it was. A commit
  interrupted after the open leaves a malformed document, which the next load reads as
  the empty registry. In every case the registry in memory carries the new timestamp.
\<close>

theorem commit_in_place:
  "fst (save_registry NoFault now s) = Inr ()
   \<and> load_registry (fs (snd (save_registry NoFault now s))) = (registry s)\<lparr>last_updated := now\<rparr>
   \<and> registry (snd (save_registry flt now s)) = (registry s)\<lparr>last_updated := now\<rparr>
   \<and> load_registry (fs (snd (save_registry OpenFails now s))) = load_registry (fs s)
   \<and> registry_file (fs (snd (save_registry WriteFails now s))) = Some Malformed
   \<and> load_registry (fs (snd (save_registry WriteFails now s))) = empty_registry
   \<and> version_dirs (fs (snd (save_registry flt now s))) = version_dirs (fs s)
   \<and> reports (fs (snd (save_registry flt now s))) = reports (fs s)"
  by (cases flt)
     (simp_all add: save_registry_def Let_def open_w_def json_dump_def load_registry_def
        read_to_dict, simp_all add: read_registry_def)

section \<open>Lineage export\<close>

text \<open>
  Claim C6, as stated, asks for every field of every record in the exported document.
  The export copies nine fields; two registries that differ in the feature count and the
  tags of a record export the same document.
\<close>

theorem lineage_fields_counterexample:
  "map_of (reports (fs (snd (export_lineage ''2024-01-03T00:00:00'' sample_state
        ''risk_scorer'' ''lineage.json'')))) ''lineage.json''
   = map_of (reports (fs (snd (export_lineage ''2024-01-03T00:00:00''
        (sample_state\<lparr>registry := sample_registry\<lparr>models :=
           [(''risk_scorer'', [(sample_version ''1.0.0'')\<lparr>feature_count := 7, tags := [''baseline'']\<rparr>,
                               sample_version ''1.1.0''])]\<rparr>\<rparr>)
        ''risk_scorer'' ''lineage.json'')))) ''lineage.json''
   \<and> (sample_version ''1.0.0'')\<lparr>feature_count := 7, tags := [''baseline'']\<rparr> \<noteq> sample_version ''1.0.0''"
  by (simp add: export_lineage_def Let_def sample_state_def sample_registry_def sample_fs_def
        history_entry_def sample_version_def)

text \<open>
  Claim C6, amended. On a model name with no line, export fails with
  \<open>ValueError("Model ... not found")\<close> and changes nothing. On a model name with a line
  it writes a document holding the model name, the generation timestamp, the number of
  records, the current production version, and one history entry per record of the line,
  in creation order, none omitted; each entry carries the record's version, creation
  time, author, description, status, production flag, training data hash, training
  samples and metrics (and no other field of the record).
\<close>

theorem export_lineage_history:
  "(map_of (models (registry s)) name = None \<longrightarrow>
      export_lineage now s name output_path = (Inl (ValueError (ModelNotFound name)), s))
   \<and> (map_of (models (registry s)) name = Some line \<longrightarrow>
      (\<exists>report.
         fst (export_lineage now s name output_path) = Inr ()
       \<and> registry (snd (export_lineage now s name output_path)) = registry s
       \<and> map_of (reports (fs (snd (export_lineage now s name output_path)))) output_path = Some report
       \<and> l_model_name report = name
       \<and> generated_at report = now
       \<and> total_versions report = length line
       \<and> l_current_production report = map_of (current_production (registry s)) name
       \<and> map h_version (version_history report) = map version line
       \<and> map h_created_at (version_history report) = map created_at line
       \<and> map h_created_by (version_history report) = map created_by line
       \<and> map h_description (version_history report) = map description line
       \<and> map h_status (version_history report) = map status line
       \<and> map h_is_production (version_history report) = map is_production line
       \<and> map h_training_data_hash (version_history report) = map training_data_hash line
       \<and> map h_training_samples (version_history report) = map training_samples line
       \<and> map h_metrics (version_history report) = map metrics line))"
  by (simp add: export_lineage_def Let_def update_conv' history_entry_def comp_def)

theorem export_lineage_history_witness:
  "map_of (models (registry (init empty_fs))) ''risk_scorer'' = None
   \<and> fst (export_lineage ''2024-01-03T00:00:00'' (init empty_fs) ''risk_scorer'' ''lineage.json'')
       = Inl (ValueError (ModelNotFound ''risk_scorer''))
   \<and> map_of (models (registry sample_state)) ''risk_scorer''
       = Some [sample_version ''1.0.0'', sample_version ''1.1.0'']
   \<and> (\<exists>report.
         map_of (reports (fs (snd (export_lineage ''2024-01-03T00:00:00'' sample_state
            ''risk_scorer'' ''lineage.json'')))) ''lineage.json'' = Some report
       \<and> map h_version (version_history report) = [''1.0.0'', ''1.1.0''])"
proof -
  have h1: "map_of (models (registry (init empty_fs))) ''risk_scorer'' = None"
    by (simp add: init_def empty_fs_def load_registry_def empty_registry_def)
  have h2: "map_of (models (registry sample_state)) ''risk_scorer''
       = Some [sample_version ''1.0.0'', sample_version ''1.1.0'']"
    by (simp add: sample_state_def sample_registry_def)
  have c1: "fst (export_lineage ''2024-01-03T00:00:00'' (init empty_fs) ''risk_scorer'' ''lineage.json'')
       = Inl (ValueError (ModelNotFound ''risk_scorer''))"
    using export_lineage_history
      [of "init empty_fs" "''risk_scorer''" "''2024-01-03T00:00:00''" "''lineage.json''" "[]"] h1
    by simp
  obtain report where
    r: "map_of (reports (fs (snd (export_lineage ''2024-01-03T00:00:00'' sample_state
            ''risk_scorer'' ''lineage.json'')))) ''lineage.json'' = Some report"
       "map h_version (version_history report)
          = map version [sample_version ''1.0.0'', sample_version ''1.1.0'']"
    using export_lineage_history
      [of sample_state "''risk_scorer''" "''2024-01-03T00:00:00''" "''lineage.json''"
          "[sample_version ''1.0.0'', sample_version ''1.1.0'']"] h2
    by blast
  have "map version [sample_version ''1.0.0'', sample_version ''1.1.0''] = [''1.0.0'', ''1.1.0'']"
    by (simp add: sample_version_def)
  with r h1 h2 c1 show ?thesis by metis
qed

section \<open>Loading a model that was never promoted\<close>





section \<open>The version allocator\<close>

lemma of_char_digit_char: "d < 10 \<Longrightarrow> (of_char (digit_char d) :: nat) = 48 + d"
  by (simp add: digit_char_def)

lemma isdigit_digit_char: "d < 10 \<Longrightarrow> isdigit (digit_char d)"
  by (simp add: isdigit_def of_char_digit_char)

lemma digit_value_digit_char: "d < 10 \<Longrightarrow> digit_value (digit_char d) = d"
  by (simp add: digit_value_def of_char_digit_char)

lemma digit_value_le_9: "isdigit c \<Longrightarrow> digit_value c \<le> 9"
  unfolding isdigit_def digit_value_def Let_def by arith

lemma isdigit_not_space: "isdigit c \<Longrightarrow> \<not> int_space c"
  by (simp add: isdigit_def int_space_def Let_def)

lemma isdigit_not_dot: "isdigit c \<Longrightarrow> c \<noteq> CHR ''.''"
  by (auto simp: isdigit_def)

lemma isdigit_not_sign: "isdigit c \<Longrightarrow> c \<noteq> CHR ''-'' \<and> c \<noteq> CHR ''+''"
  by (auto simp: isdigit_def)

lemma minus_not_space: "\<not> int_space CHR ''-''"
  by (simp add: int_space_def)

lemma str_nat_digits: "\<forall>c \<in> set (str_nat n). isdigit c"
proof (induction n rule: str_nat.induct)
  case (1 n)
  show ?case
  proof (cases "n < 10")
    case True
    then show ?thesis by (simp add: str_nat.simps[of n] isdigit_digit_char)
  next
    case False
    with 1 show ?thesis by (simp add: str_nat.simps[of n] isdigit_digit_char)
  qed
qed

lemma str_nat_nonempty: "str_nat n \<noteq> []"
  by (simp add: str_nat.simps[of n])

lemma filter_isdigit_str_nat: "filter isdigit (str_nat n) = str_nat n"
  using str_nat_digits[of n] by (simp add: filter_id_conv)

lemma int_digits_all_digits:
  "\<forall>c \<in> set ds. isdigit c \<Longrightarrow>
   int_digits acc ds = Some (foldl (\<lambda>a c. 10 * a + digit_value c) acc ds)"
  by (induction ds arbitrary: acc) simp_all

lemma foldl_str_nat: "foldl (\<lambda>a c. 10 * a + digit_value c) 0 (str_nat n) = n"
proof (induction n rule: str_nat.induct)
  case (1 n)
  show ?case
  proof (cases "n < 10")
    case True
    then show ?thesis by (simp add: str_nat.simps[of n] digit_value_digit_char)
  next
    case False
    with 1 show ?thesis by (simp add: str_nat.simps[of n] digit_value_digit_char)
  qed
qed

lemma int_unsigned_str_nat:
  "length (str_nat n) \<le> max_str_digits \<Longrightarrow> int_unsigned (str_nat n) = Some n"
proof (cases "str_nat n")
  case Nil
  then show ?thesis by (simp add: str_nat_nonempty)
next
  case (Cons c cs)
  assume len: "length (str_nat n) \<le> max_str_digits"
  from Cons str_nat_digits[of n] have d: "isdigit c" "\<forall>x \<in> set cs. isdigit x" by simp_all
  have "foldl (\<lambda>a c. 10 * a + digit_value c) 0 (c # cs) = n"
    using foldl_str_nat[of n] Cons by simp
  moreover have "\<not> length (filter isdigit (c # cs)) > max_str_digits"
    using len filter_isdigit_str_nat[of n] Cons by simp
  ultimately show ?thesis using d
    unfolding Cons int_unsigned_def by (simp add: int_digits_all_digits del: filter.simps)
qed

lemma strip_id:
  assumes "s \<noteq> []" "\<not> int_space (hd s)" "\<not> int_space (last s)"
  shows "strip s = s"
proof -
  from assms have a: "dropWhile int_space s = s"
    by (cases s) simp_all
  from assms have "dropWhile int_space (rev s) = rev s"
    by (cases "rev s") (simp_all add: hd_rev)
  with a show ?thesis by (simp add: strip_def)
qed

lemma strip_str_nat: "strip (str_nat n) = str_nat n"
proof (rule strip_id)
  show "str_nat n \<noteq> []" by (rule str_nat_nonempty)
  have "hd (str_nat n) \<in> set (str_nat n)" "last (str_nat n) \<in> set (str_nat n)"
    using str_nat_nonempty by simp_all
  then show "\<not> int_space (hd (str_nat n))" "\<not> int_space (last (str_nat n))"
    using str_nat_digits[of n] isdigit_not_space by blast+
qed

lemma py_int_decimal:
  assumes "digits i \<le> max_str_digits"
  shows "py_int (decimal i) = Some i"
proof (cases "i < 0")
  case True
  have "strip (CHR ''-'' # str_nat (nat (- i))) = CHR ''-'' # str_nat (nat (- i))"
  proof (rule strip_id)
    have "last (str_nat (nat (- i))) \<in> set (str_nat (nat (- i)))"
      using str_nat_nonempty by simp
    then show "\<not> int_space (last (CHR ''-'' # str_nat (nat (- i))))"
      using str_nat_digits[of "nat (- i)"] isdigit_not_space str_nat_nonempty by auto
  qed (simp_all add: minus_not_space)
  moreover from True assms have "length (str_nat (nat (- i))) \<le> max_str_digits"
    by (simp add: digits_def abs_if)
  ultimately show ?thesis using True
    by (simp add: py_int_def decimal_def int_unsigned_str_nat)
next
  case False
  obtain c cs where cs: "str_nat (nat i) = c # cs"
    using str_nat_nonempty[of "nat i"] by (cases "str_nat (nat i)") auto
  then have "isdigit c" using str_nat_digits[of "nat i"] by simp
  then have "c \<noteq> CHR ''-''" "c \<noteq> CHR ''+''" using isdigit_not_sign by blast+
  moreover from False assms have "length (str_nat (nat i)) \<le> max_str_digits"
    by (simp add: digits_def abs_if)
  then have "int_unsigned (c # cs) = Some (nat i)"
    using int_unsigned_str_nat[of "nat i"] cs by simp
  ultimately show ?thesis using False cs strip_str_nat[of "nat i"]
    by (simp add: py_int_def decimal_def)
qed

lemma py_str_Some: "py_str i = Some t \<longleftrightarrow> digits i \<le> max_str_digits \<and> t = decimal i"
  by (auto simp: py_str_def)

lemma py_str_None: "py_str i = None \<longleftrightarrow> digits i > max_str_digits"
  by (auto simp: py_str_def)

lemma split_dot_nonempty: "split_dot s \<noteq> []"
  by (induction s) simp_all

lemma split_dot_no_dot: "CHR ''.'' \<notin> set s \<Longrightarrow> split_dot s = [s]"
  by (induction s) auto

lemma split_dot_append:
  "CHR ''.'' \<notin> set a \<Longrightarrow> split_dot (a @ CHR ''.'' # rest) = a # split_dot rest"
  by (induction a) auto

lemma decimal_no_dot: "CHR ''.'' \<notin> set (decimal i)"
proof -
  have "CHR ''.'' \<notin> set (str_nat n)" for n
    using str_nat_digits[of n] isdigit_not_dot by blast
  then show ?thesis by (simp add: decimal_def)
qed

lemma split_dot_format:
  "split_dot (decimal a @ CHR ''.'' # decimal b @ CHR ''.'' # decimal c)
          = [decimal a, decimal b, decimal c]"
  using split_dot_append[OF decimal_no_dot, of a "decimal b @ CHR ''.'' # decimal c"]
    split_dot_append[OF decimal_no_dot, of b "decimal c"]
    split_dot_no_dot[OF decimal_no_dot, of c]
  by simp

lemma parse_format_version:
  assumes "representable (a, b, c)"
  shows "parse_version (format_version a b c) = Inr (a, b, c)"
  using assms
  by (simp add: parse_version_def format_version_def split_dot_format unpack3_def
        py_int_decimal representable_def)


lemma str_nat_length_le: "n < 10 ^ d \<Longrightarrow> 0 < d \<Longrightarrow> length (str_nat n) \<le> d"
proof (induction n arbitrary: d rule: str_nat.induct)
  case (1 n)
  show ?case
  proof (cases "n < 10")
    case True
    with 1(3) show ?thesis by (simp add: str_nat.simps[of n])
  next
    case False
    obtain e where d: "d = Suc e" using 1(3) by (cases d) auto
    have e: "0 < e"
    proof (rule ccontr)
      assume "\<not> 0 < e"
      with d 1(2) False show False by simp
    qed
    from 1(2) d have "n div 10 < 10 ^ e"
      by (simp add: less_mult_imp_div_less mult.commute)
    from 1(1)[OF False this e] False d show ?thesis
      by (simp add: str_nat.simps[of n])
  qed
qed

lemma bound_step:
  fixes v acc x k :: nat
  assumes "v < (10 * acc + x + 1) * 10 ^ k" "x \<le> 9"
  shows "v < (acc + 1) * 10 ^ Suc k"
proof -
  from assms(2) have "(10 * acc + x + 1) * 10 ^ k \<le> (10 * acc + 10) * 10 ^ k"
    by (intro mult_le_mono1) simp
  also have "\<dots> = (acc + 1) * 10 ^ Suc k" by (simp add: algebra_simps)
  finally show ?thesis using assms(1) by simp
qed

lemma int_digits_bound:
  "int_digits acc ds = Some v \<Longrightarrow> v < (acc + 1) * 10 ^ length (filter isdigit ds)"
proof (induction acc ds arbitrary: v rule: int_digits.induct)
  case (1 acc)
  then show ?case by simp
next
  case (2 acc c cs)
  show ?case
  proof (cases "isdigit c")
    case True
    with 2(3) have "int_digits (10 * acc + digit_value c) cs = Some v" by simp
    from 2(1)[OF True this] have "v < (10 * acc + digit_value c + 1) * 10 ^ length (filter isdigit cs)" .
    from bound_step[OF this digit_value_le_9[OF True]] True show ?thesis by simp
  next
    case False
    with 2(3) obtain d ds where cs: "cs = d # ds" and u: "c = CHR ''_''" and dd: "isdigit d"
      and r: "int_digits (10 * acc + digit_value d) ds = Some v"
      by (auto split: if_splits list.splits)
    from 2(2)[OF False u cs dd r]
    have "v < (10 * acc + digit_value d + 1) * 10 ^ length (filter isdigit ds)" .
    from bound_step[OF this digit_value_le_9[OF dd]] False cs dd show ?thesis by simp
  qed
qed

lemma int_unsigned_bound:
  assumes "int_unsigned s = Some n"
  shows "length (str_nat n) \<le> max_str_digits"
proof -
  from assms obtain c cs where s: "s = c # cs" and c: "isdigit c"
    and len: "length (filter isdigit s) \<le> max_str_digits"
    and r: "int_digits (digit_value c) cs = Some n"
    by (auto simp: int_unsigned_def split: list.splits if_splits)
  from int_digits_bound[OF r] have "n < (digit_value c + 1) * 10 ^ length (filter isdigit cs)" .
  also have "\<dots> \<le> 10 * 10 ^ length (filter isdigit cs)"
    using digit_value_le_9[OF c] by (intro mult_le_mono1) simp
  also have "\<dots> = 10 ^ length (filter isdigit s)"
    using s c by simp
  finally have "n < 10 ^ length (filter isdigit s)" .
  moreover have "0 < length (filter isdigit s)" using s c by simp
  ultimately have "length (str_nat n) \<le> length (filter isdigit s)"
    by (rule str_nat_length_le)
  with len show ?thesis by simp
qed

lemma py_int_digits_bound:
  assumes "py_int s = Some i"
  shows "digits i \<le> max_str_digits"
proof -
  from assms obtain body n where "int_unsigned body = Some n" and "i = int n \<or> i = - int n"
    by (auto simp: py_int_def split: list.splits if_splits)
  then show ?thesis using int_unsigned_bound[of body n]
    by (auto simp: digits_def)
qed

lemma parse_version_representable:
  assumes "parse_version v = Inr t"
  shows "representable t"
proof -
  from assms obtain a b c x y z where
    "py_int a = Some x" "py_int b = Some y" "py_int c = Some z" "t = (x, y, z)"
    by (auto simp: parse_version_def unpack3_def split: list.splits option.splits)
  then show ?thesis
    using py_int_digits_bound by (simp add: representable_def)
qed

lemma decimal_0: "decimal 0 = ''0''"
  by code_simp

lemma digits_0: "digits 0 \<le> max_str_digits"
  by code_simp

lemma version_less_trans: "version_less t u \<Longrightarrow> version_less u w \<Longrightarrow> version_less t w"
  by (auto simp: version_less_def split: prod.splits)

lemma version_less_irrefl: "\<not> version_less t t"
  by (auto simp: version_less_def split: prod.splits)

lemma version_less_bumped: "version_less t (bumped bump t)"
  by (auto simp: version_less_def bumped_def split: prod.splits)


lemma get_next_version_bump:
  assumes "map_of (models reg) name = Some line" "line \<noteq> []"
    and "parse_version (version (last line)) = Inr t"
  shows "representable (bumped bump t) \<Longrightarrow>
         get_next_version reg name bump
           = Inr (case bumped bump t of (a, b, c) \<Rightarrow> format_version a b c)"
    and "\<not> representable (bumped bump t) \<Longrightarrow>
         get_next_version reg name bump = Inl (ValueError StrConversion)"
proof -
  obtain major minor patch where t: "t = (major, minor, patch)" by (cases t)
  from parse_version_representable[OF assms(3)] t
  have r: "digits major \<le> max_str_digits" "digits minor \<le> max_str_digits"
    "digits patch \<le> max_str_digits"
    by (simp_all add: representable_def)
  have g: "get_next_version reg name bump =
      (if bump = ''major'' then
         (case py_str (major + 1) of
            None \<Rightarrow> Inl (ValueError StrConversion)
          | Some a \<Rightarrow> Inr (a @ ''.0.0''))
       else if bump = ''minor'' then
         (case py_str (minor + 1) of
            None \<Rightarrow> Inl (ValueError StrConversion)
          | Some b \<Rightarrow> Inr (decimal major @ ''.'' @ b @ ''.0''))
       else
         (case py_str (patch + 1) of
            None \<Rightarrow> Inl (ValueError StrConversion)
          | Some c \<Rightarrow> Inr (decimal major @ ''.'' @ decimal minor @ ''.'' @ c)))"
    using assms r by (simp add: get_next_version_def t py_str_def)
  show "get_next_version reg name bump
           = Inr (case bumped bump t of (a, b, c) \<Rightarrow> format_version a b c)"
    if rep: "representable (bumped bump t)"
  proof -
    consider (major) "bump = ''major''"
      | (minor) "bump \<noteq> ''major''" "bump = ''minor''"
      | (patch) "bump \<noteq> ''major''" "bump \<noteq> ''minor''"
      by blast
    then show ?thesis
    proof cases
      case major
      with rep have "digits (major + 1) \<le> max_str_digits"
        by (simp add: t bumped_def representable_def)
      then have "py_str (major + 1) = Some (decimal (major + 1))"
        by (simp add: py_str_def)
      then show ?thesis
        unfolding g using major
        by (simp add: t bumped_def format_version_def decimal_0)
    next
      case minor
      with rep have "digits (minor + 1) \<le> max_str_digits"
        by (simp add: t bumped_def representable_def)
      then have "py_str (minor + 1) = Some (decimal (minor + 1))"
        by (simp add: py_str_def)
      then show ?thesis
        unfolding g using minor
        by (simp add: t bumped_def format_version_def decimal_0)
    next
      case patch
      with rep have "digits (patch + 1) \<le> max_str_digits"
        by (simp add: t bumped_def representable_def)
      then have "py_str (patch + 1) = Some (decimal (patch + 1))"
        by (simp add: py_str_def)
      then show ?thesis
        unfolding g using patch
        by (simp add: t bumped_def format_version_def)
    qed
  qed
  show "\<not> representable (bumped bump t) \<Longrightarrow>
         get_next_version reg name bump = Inl (ValueError StrConversion)"
    using r digits_0
    by (simp add: g t bumped_def representable_def py_str_def split: if_splits)
qed

lemma get_next_version_fails:
  assumes "map_of (models reg) name = Some line" "line \<noteq> []"
    and "parse_version (version (last line)) = Inl e"
  shows "get_next_version reg name bump = Inl e"
  using assms by (simp add: get_next_version_def)

lemma get_next_version_parse:
  assumes "get_next_version reg name bump = Inr v"
    and "map_of (models reg) name = Some line" "line \<noteq> []"
  shows "\<exists>t. parse_version (version (last line)) = Inr t
           \<and> parse_version v = Inr (bumped bump t)"
proof (cases "parse_version (version (last line))")
  case (Inl e)
  from get_next_version_fails[OF assms(2,3) Inl, of bump] assms(1) show ?thesis by simp
next
  case (Inr t)
  note b = get_next_version_bump[OF assms(2,3) Inr, of bump]
  show ?thesis
  proof (cases "representable (bumped bump t)")
    case False
    from b(2)[OF False] assms(1) show ?thesis by simp
  next
    case True
    obtain a b' c where bt: "bumped bump t = (a, b', c)" by (cases "bumped bump t")
    from b(1)[OF True] assms(1) bt have "v = format_version a b' c" by simp
    with parse_format_version[of a b' c] True bt Inr show ?thesis by simp
  qed
qed










section \<open>Registration appends the allocated version\<close>

lemma register_model_fails:
  "get_next_version (registry s) (a_model_name a) (a_bump a) = Inl e \<Longrightarrow>
   register_model flt t_created t_saved s a = (Inl e, s)"
  by (simp add: register_model_def)

lemma register_model_appends:
  assumes "get_next_version (registry s) (a_model_name a) (a_bump a) = Inr vs"
  shows "models (registry (snd (register_model flt t_created t_saved s a)))
          = AList.update (a_model_name a)
              ((case map_of (models (registry s)) (a_model_name a) of None \<Rightarrow> [] | Some l \<Rightarrow> l)
                 @ [new_version vs t_created a])
              (models (registry s))"
    and "current_production (registry (snd (register_model flt t_created t_saved s a)))
          = current_production (registry s)"
    and "fst (register_model flt t_created t_saved s a) = Inl OSError
          \<or> fst (register_model flt t_created t_saved s a) = Inr (new_version vs t_created a)"
  using assms
  by (cases flt; simp add: register_model_def Let_def save_registry_def)+

lemma new_version_simps:
  "version (new_version vs t a) = vs" "\<not> is_production (new_version vs t a)"
  by (simp_all add: new_version_def)


lemma version_lt_iff:
  "version_lt v w \<longleftrightarrow> (\<exists>t u. parse_version v = Inr t \<and> parse_version w = Inr u \<and> version_less t u)"
  by (auto simp: version_lt_def split: sum.splits)

lemma version_lt_trans: "version_lt a b \<Longrightarrow> version_lt b c \<Longrightarrow> version_lt a c"
  unfolding version_lt_iff using version_less_trans by fastforce

lemma version_lt_irrefl: "\<not> version_lt a a"
  unfolding version_lt_iff using version_less_irrefl by auto










section \<open>Retention protects the production version\<close>

lemma remove_version_keeps:
  assumes "version v \<noteq> pv"
    and "remove_version rmtree_raises name v (line, dirs, k) = (line', dirs', k')"
  shows "filter (\<lambda>r. version r = pv) line' = filter (\<lambda>r. version r = pv) line"
    and "map_of dirs' (name, pv) = map_of dirs (name, pv)"
proof -
  have f: "filter (\<lambda>r. version r = pv) (remove1 v line) = filter (\<lambda>r. version r = pv) line"
    using assms(1) by (simp add: filter_remove1 remove1_idem)
  have d: "map_of (AList.delete (name, version v) dirs) (name, pv) = map_of dirs (name, pv)"
    using assms(1) by (simp add: delete_conv')
  from assms(2) f show "filter (\<lambda>r. version r = pv) line' = filter (\<lambda>r. version r = pv) line"
    by (auto simp: remove_version_def Let_def split: if_splits)
  from assms(2) d show "map_of dirs' (name, pv) = map_of dirs (name, pv)"
    by (auto simp: remove_version_def Let_def split: if_splits)
qed

lemma fold_remove_version_keeps:
  assumes "\<forall>v \<in> set to_remove. version v \<noteq> pv"
    and "fold (remove_version rmtree_raises name) to_remove (line, dirs, k) = (line', dirs', k')"
  shows "filter (\<lambda>r. version r = pv) line' = filter (\<lambda>r. version r = pv) line
       \<and> map_of dirs' (name, pv) = map_of dirs (name, pv)"
  using assms
proof (induction to_remove arbitrary: line dirs k)
  case Nil
  then show ?case by simp
next
  case (Cons v rest)
  obtain l1 d1 k1 where step: "remove_version rmtree_raises name v (line, dirs, k) = (l1, d1, k1)"
    by (cases "remove_version rmtree_raises name v (line, dirs, k)") auto
  from Cons.prems(1) have v: "version v \<noteq> pv" by simp
  from Cons.prems(2) step
  have "fold (remove_version rmtree_raises name) rest (l1, d1, k1) = (line', dirs', k')"
    by simp
  with Cons.IH[of l1 d1 k1] Cons.prems(1)
  have "filter (\<lambda>r. version r = pv) line' = filter (\<lambda>r. version r = pv) l1
       \<and> map_of dirs' (name, pv) = map_of d1 (name, pv)"
    by simp
  with remove_version_keeps[OF v step] show ?case by simp
qed

lemma save_registry_keeps:
  "models (registry (snd (save_registry flt now s))) = models (registry s)"
  "current_production (registry (snd (save_registry flt now s))) = current_production (registry s)"
  "version_dirs (fs (snd (save_registry flt now s))) = version_dirs (fs s)"
  by (cases flt; simp add: save_registry_def Let_def open_w_def json_dump_def)+

lemma cleanup_result:
  assumes "map_of (models (registry s)) name = Some versions"
    and "fold (remove_version rmtree_raises name)
           (if keep_production \<and>
               (case map_of (current_production (registry s)) name of None \<Rightarrow> False | Some p \<Rightarrow> p \<noteq> [])
            then filter (\<lambda>v. Some (version v) \<noteq> map_of (current_production (registry s)) name)
                   (filter (\<lambda>v. v \<notin> set (last_n keep_last_n versions)) versions)
            else filter (\<lambda>v. v \<notin> set (last_n keep_last_n versions)) versions)
           (versions, version_dirs (fs s), 0) = (line, dirs, removed)"
  shows "models (registry (snd (cleanup_old_versions flt rmtree_raises t_saved s name keep_last_n keep_production)))
           = AList.update name line (models (registry s))"
    and "version_dirs (fs (snd (cleanup_old_versions flt rmtree_raises t_saved s name keep_last_n keep_production)))
           = dirs"
    and "current_production (registry (snd (cleanup_old_versions flt rmtree_raises t_saved s name keep_last_n keep_production)))
           = current_production (registry s)"
    and "fst (cleanup_old_versions NoFault rmtree_raises t_saved s name keep_last_n keep_production)
           = Inr removed"
  using assms
  by (cases flt; simp add: cleanup_old_versions_def Let_def save_registry_def open_w_def json_dump_def)+


lemma cleanup_keeps_production_general:
  assumes "map_of (models (registry s)) name = Some versions"
    and "map_of (current_production (registry s)) name = Some pv" "pv \<noteq> []"
  shows "\<exists>line. map_of (models (registry (snd (cleanup_old_versions flt rmtree_raises t_saved s name n True)))) name
                 = Some line
            \<and> filter (\<lambda>r. version r = pv) line = filter (\<lambda>r. version r = pv) versions
            \<and> (\<forall>r \<in> set versions. version r = pv \<longrightarrow> r \<in> set line)"
    and "map_of (version_dirs (fs (snd (cleanup_old_versions flt rmtree_raises t_saved s name n True)))) (name, pv)
           = map_of (version_dirs (fs s)) (name, pv)"
    and "map_of (current_production (registry (snd (cleanup_old_versions flt rmtree_raises t_saved s name n True)))) name
           = Some pv"
proof -
  let ?rem = "if True \<and>
               (case map_of (current_production (registry s)) name of None \<Rightarrow> False | Some p \<Rightarrow> p \<noteq> [])
            then filter (\<lambda>v. Some (version v) \<noteq> map_of (current_production (registry s)) name)
                   (filter (\<lambda>v. v \<notin> set (last_n n versions)) versions)
            else filter (\<lambda>v. v \<notin> set (last_n n versions)) versions"
  obtain line dirs removed where
    fold: "fold (remove_version rmtree_raises name) ?rem (versions, version_dirs (fs s), 0)
             = (line, dirs, removed)"
    by (cases "fold (remove_version rmtree_raises name) ?rem (versions, version_dirs (fs s), 0)") auto
  have rem: "\<forall>v \<in> set ?rem. version v \<noteq> pv"
    using assms(2,3) by simp
  note keeps = fold_remove_version_keeps[OF rem fold]
  note res = cleanup_result[OF assms(1) fold]
  have l: "map_of (models (registry (snd (cleanup_old_versions flt rmtree_raises t_saved s name n True)))) name
                 = Some line"
    by (simp add: res(1) update_conv')
  have f: "filter (\<lambda>r. version r = pv) line = filter (\<lambda>r. version r = pv) versions"
    using keeps by simp
  have "\<forall>r \<in> set versions. version r = pv \<longrightarrow> r \<in> set line"
  proof (intro ballI impI)
    fix r assume "r \<in> set versions" "version r = pv"
    then have "r \<in> set (filter (\<lambda>r. version r = pv) versions)" by simp
    with f have "r \<in> set (filter (\<lambda>r. version r = pv) line)" by simp
    then show "r \<in> set line" by simp
  qed
  with l f show "\<exists>line. map_of (models (registry (snd (cleanup_old_versions flt rmtree_raises t_saved s name n True)))) name
                 = Some line
            \<and> filter (\<lambda>r. version r = pv) line = filter (\<lambda>r. version r = pv) versions
            \<and> (\<forall>r \<in> set versions. version r = pv \<longrightarrow> r \<in> set line)"
    by blast
  show "map_of (version_dirs (fs (snd (cleanup_old_versions flt rmtree_raises t_saved s name n True)))) (name, pv)
           = map_of (version_dirs (fs s)) (name, pv)"
    using keeps by (simp add: res(2))
  show "map_of (current_production (registry (snd (cleanup_old_versions flt rmtree_raises t_saved s name n True)))) name
           = Some pv"
    using assms(2) by (simp add: res(3))
qed

lemma scenario_before:
  "map_option (map version) (map_of (models (registry scenario_state)) ''risk_scorer'')
     = Some [''1.0.0'', ''1.0.1'', ''1.0.2'']"
  "map_of (current_production (registry scenario_state)) ''risk_scorer'' = Some ''1.0.1''"
  by code_simp+

lemma scenario_cleanup:
  "fst (cleanup_old_versions NoFault (\<lambda>v. False) ''2024-01-05T00:00:00'' scenario_state
          ''risk_scorer'' 1 True) = Inr 1"
  "map_option (map version)
     (map_of (models (registry (snd (cleanup_old_versions NoFault (\<lambda>v. False)
        ''2024-01-05T00:00:00'' scenario_state ''risk_scorer'' 1 True)))) ''risk_scorer'')
     = Some [''1.0.1'', ''1.0.2'']"
  "map fst (version_dirs (fs (snd (cleanup_old_versions NoFault (\<lambda>v. False)
        ''2024-01-05T00:00:00'' scenario_state ''risk_scorer'' 1 True))))
     = [(''risk_scorer'', ''1.0.1''), (''risk_scorer'', ''1.0.2'')]"
  by code_simp+

text \<open>
  Claim C5. For every registry state in which a model has a line and a production
  pointer (a version string, hence not empty), cleanup with \<open>keep_production\<close> set never
  removes a record of the production version, whatever \<open>keep_last_n\<close> is, wherever the
  record lies in the line, whichever directories fail to be deleted and whatever the
  commit does: the records of that version are the same before and after, its directory
  is untouched and the pointer stays. In particular, after registering 1.0.0, 1.0.1 and
  1.0.2 of \<open>risk_scorer\<close> and promoting 1.0.1, cleanup with \<open>keep_last_n = 1\<close> returns 1
  and leaves exactly the records and the directories of 1.0.1 and 1.0.2.
\<close>

theorem cleanup_keeps_production:
  "(map_of (models (registry s)) name = Some versions
      \<and> map_of (current_production (registry s)) name = Some pv \<and> pv \<noteq> []
    \<longrightarrow> (\<exists>line. map_of (models (registry (snd (cleanup_old_versions flt rmtree_raises t_saved s name n True)))) name
                   = Some line
              \<and> filter (\<lambda>r. version r = pv) line = filter (\<lambda>r. version r = pv) versions
              \<and> (\<forall>r \<in> set versions. version r = pv \<longrightarrow> r \<in> set line))
        \<and> map_of (version_dirs (fs (snd (cleanup_old_versions flt rmtree_raises t_saved s name n True)))) (name, pv)
            = map_of (version_dirs (fs s)) (name, pv)
        \<and> map_of (current_production (registry (snd (cleanup_old_versions flt rmtree_raises t_saved s name n True)))) name
            = Some pv)
   \<and> map_option (map version) (map_of (models (registry scenario_state)) ''risk_scorer'')
       = Some [''1.0.0'', ''1.0.1'', ''1.0.2'']
   \<and> map_of (current_production (registry scenario_state)) ''risk_scorer'' = Some ''1.0.1''
   \<and> fst (cleanup_old_versions NoFault (\<lambda>v. False) ''2024-01-05T00:00:00'' scenario_state
            ''risk_scorer'' 1 True) = Inr 1
   \<and> map_option (map version)
       (map_of (models (registry (snd (cleanup_old_versions NoFault (\<lambda>v. False)
          ''2024-01-05T00:00:00'' scenario_state ''risk_scorer'' 1 True)))) ''risk_scorer'')
       = Some [''1.0.1'', ''1.0.2'']
   \<and> map fst (version_dirs (fs (snd (cleanup_old_versions NoFault (\<lambda>v. False)
          ''2024-01-05T00:00:00'' scenario_state ''risk_scorer'' 1 True))))
       = [(''risk_scorer'', ''1.0.1''), (''risk_scorer'', ''1.0.2'')]"
  using cleanup_keeps_production_general[of s name versions pv flt rmtree_raises t_saved n]
    scenario_before scenario_cleanup
  by blast

theorem cleanup_keeps_production_witness:
  "map_of (current_production (registry scenario_state)) ''risk_scorer'' = Some ''1.0.1''
   \<and> ''1.0.1'' \<noteq> []
   \<and> (\<exists>versions line.
         map_of (models (registry scenario_state)) ''risk_scorer'' = Some versions
       \<and> map version versions = [''1.0.0'', ''1.0.1'', ''1.0.2'']
       \<and> map_of (models (registry (snd (cleanup_old_versions WriteFails (\<lambda>v. v = ''1.0.0'')
            ''2024-01-05T00:00:00'' scenario_state ''risk_scorer'' 1 True)))) ''risk_scorer'' = Some line
       \<and> filter (\<lambda>r. version r = ''1.0.1'') line = filter (\<lambda>r. version r = ''1.0.1'') versions)"
proof -
  have p: "map_of (current_production (registry scenario_state)) ''risk_scorer'' = Some ''1.0.1''"
    by (rule scenario_before(2))
  have ne: "''1.0.1'' \<noteq> []" by simp
  obtain versions where
    v: "map_of (models (registry scenario_state)) ''risk_scorer'' = Some versions"
      and vs: "map version versions = [''1.0.0'', ''1.0.1'', ''1.0.2'']"
    using scenario_before(1) by (auto simp: map_option_case split: option.splits)
  from cleanup_keeps_production
    [of scenario_state "''risk_scorer''" versions "''1.0.1''" WriteFails "\<lambda>v. v = ''1.0.0''"
        "''2024-01-05T00:00:00''" 1, THEN conjunct1] v p ne
  obtain line where
    l: "map_of (models (registry (snd (cleanup_old_versions WriteFails (\<lambda>v. v = ''1.0.0'')
            ''2024-01-05T00:00:00'' scenario_state ''risk_scorer'' 1 True)))) ''risk_scorer'' = Some line"
    and f: "filter (\<lambda>r. version r = ''1.0.1'') line = filter (\<lambda>r. version r = ''1.0.1'') versions"
    by blast
  have "\<exists>versions line.
         map_of (models (registry scenario_state)) ''risk_scorer'' = Some versions
       \<and> map version versions = [''1.0.0'', ''1.0.1'', ''1.0.2'']
       \<and> map_of (models (registry (snd (cleanup_old_versions WriteFails (\<lambda>v. v = ''1.0.0'')
            ''2024-01-05T00:00:00'' scenario_state ''risk_scorer'' 1 True)))) ''risk_scorer'' = Some line
       \<and> filter (\<lambda>r. version r = ''1.0.1'') line = filter (\<lambda>r. version r = ''1.0.1'') versions"
    by (rule exI[of _ versions], rule exI[of _ line]) (simp only: v vs l f simp_thms)
  with p ne show ?thesis by (simp only: simp_thms)
qed

section \<open>At most one production record\<close>

lemma registry_invariant_iff:
  "registry_invariant reg \<longleftrightarrow>
    (\<forall>name line. map_of (models reg) name = Some line \<longrightarrow>
       sorted_wrt version_lt (map version line)
       \<and> production_consistent (map_of (current_production reg) name) line)"
  unfolding registry_invariant_def
  by (auto dest: map_of_SomeD)

lemma registry_invariant_cong:
  "models r = models r' \<Longrightarrow> current_production r = current_production r' \<Longrightarrow>
   registry_invariant r = registry_invariant r'"
  by (simp add: registry_invariant_def)

lemma sorted_wrt_before_last:
  assumes "sorted_wrt P xs" "x \<in> set xs"
  shows "x = last xs \<or> P x (last xs)"
proof (cases xs rule: rev_cases)
  case Nil
  with assms(2) show ?thesis by simp
next
  case (snoc ys y)
  with assms show ?thesis by (auto simp: sorted_wrt_append)
qed

lemma sorted_wrt_distinct:
  "sorted_wrt version_lt vs \<Longrightarrow> distinct vs"
  by (induction vs) (auto simp: version_lt_irrefl)

lemma filter_distinct_le_1:
  "distinct (map g xs) \<Longrightarrow> length (filter (\<lambda>x. g x = a) xs) \<le> 1"
proof (induction xs)
  case Nil
  then show ?case by simp
next
  case (Cons x xs)
  show ?case
  proof (cases "g x = a")
    case True
    from Cons.prems have nx: "g x \<notin> g ` set xs" by simp
    have "\<forall>y \<in> set xs. g y \<noteq> a"
    proof
      fix y assume "y \<in> set xs"
      then have "g y \<in> g ` set xs" by simp
      with nx True show "g y \<noteq> a" by metis
    qed
    then have "filter (\<lambda>x. g x = a) xs = []" by (simp add: filter_empty_conv)
    with True show ?thesis by simp
  next
    case False
    with Cons show ?thesis by simp
  qed
qed

lemma get_next_version_above_last:
  assumes "get_next_version reg name bump = Inr vs"
    and "map_of (models reg) name = Some line" "line \<noteq> []"
  shows "version_lt (version (last line)) vs"
proof -
  from get_next_version_parse[OF assms] obtain t where
    "parse_version (version (last line)) = Inr t" "parse_version vs = Inr (bumped bump t)"
    by blast
  with version_less_bumped[of t bump] show ?thesis
    by (simp add: version_lt_def)
qed

lemma append_version_sorted:
  assumes "sorted_wrt version_lt (map version line)"
    and "line \<noteq> [] \<longrightarrow> version_lt (version (last line)) vs"
    and "version v = vs"
  shows "sorted_wrt version_lt (map version (line @ [v]))"
proof -
  have "\<forall>x \<in> set line. version_lt (version x) vs"
  proof
    fix x assume x: "x \<in> set line"
    then have ne: "line \<noteq> []" by auto
    from x have "version x \<in> set (map version line)" by simp
    from sorted_wrt_before_last[OF assms(1) this]
    have "version x = version (last line) \<or> version_lt (version x) (version (last line))"
      using ne by (simp add: last_map)
    with assms(2) ne show "version_lt (version x) vs"
      using version_lt_trans by metis
  qed
  with assms(1,3) show ?thesis by (simp add: sorted_wrt_append)
qed

lemma production_consistent_append:
  "\<not> is_production v \<Longrightarrow> production_consistent p (line @ [v]) = production_consistent p line"
  by (auto simp: production_consistent_def)


lemma register_preserves_invariant:
  assumes "registry_invariant (registry s)"
  shows "registry_invariant (registry (snd (register_model flt t_created t_saved s a)))"
proof (cases "get_next_version (registry s) (a_model_name a) (a_bump a)")
  case (Inl e)
  with assms show ?thesis by (simp add: register_model_fails)
next
  case (Inr vs)
  let ?name = "a_model_name a"
  let ?line = "case map_of (models (registry s)) ?name of None \<Rightarrow> [] | Some l \<Rightarrow> l"
  let ?v = "new_version vs t_created a"
  let ?r = "registry (snd (register_model flt t_created t_saved s a))"
  note eff = register_model_appends[OF Inr, of flt t_created t_saved]
  have old: "sorted_wrt version_lt (map version ?line)
       \<and> production_consistent (map_of (current_production (registry s)) ?name) ?line"
    using assms unfolding registry_invariant_iff
    by (cases "map_of (models (registry s)) ?name") (simp_all add: production_consistent_def)
  have above: "?line \<noteq> [] \<longrightarrow> version_lt (version (last ?line)) vs"
    using get_next_version_above_last[OF Inr]
    by (cases "map_of (models (registry s)) ?name") simp_all
  have new: "sorted_wrt version_lt (map version (?line @ [?v]))
       \<and> production_consistent (map_of (current_production (registry s)) ?name) (?line @ [?v])"
    using append_version_sorted[OF conjunct1[OF old] above, of ?v] old
    by (simp add: new_version_simps production_consistent_append)
  show ?thesis
    unfolding registry_invariant_iff
  proof (intro allI impI)
    fix name line
    assume l: "map_of (models ?r) name = Some line"
    show "sorted_wrt version_lt (map version line)
       \<and> production_consistent (map_of (current_production ?r) name) line"
    proof (cases "name = ?name")
      case True
      with l have "line = ?line @ [?v]" by (simp add: eff(1) update_conv')
      with new True show ?thesis by (simp add: eff(2))
    next
      case False
      with l have "map_of (models (registry s)) name = Some line"
        by (simp add: eff(1) update_conv')
      with assms show ?thesis unfolding registry_invariant_iff by (simp add: eff(2))
    qed
  qed
qed


lemma save_registry_invariant:
  "registry_invariant (registry (snd (save_registry flt now s))) = registry_invariant (registry s)"
  by (rule registry_invariant_cong) (simp_all add: save_registry_keeps)

lemma promoted_line:
  assumes "sorted_wrt version_lt (map version line)"
  shows "sorted_wrt version_lt (map version (map (\<lambda>v. v\<lparr>is_production := (version v = ver)\<rparr>) line))"
    and "production_consistent (Some ver) (map (\<lambda>v. v\<lparr>is_production := (version v = ver)\<rparr>) line)"
    and "\<forall>r \<in> set line. version r \<noteq> ver \<Longrightarrow>
         production_consistent p (map (\<lambda>v. v\<lparr>is_production := (version v = ver)\<rparr>) line)"
proof -
  let ?f = "\<lambda>v. v\<lparr>is_production := (version v = ver)\<rparr>"
  have m: "map version (map ?f line) = map version line"
    by (simp add: comp_def)
  from assms show "sorted_wrt version_lt (map version (map ?f line))"
    by (simp only: m)
  have flt: "filter is_production (map ?f line) = map ?f (filter (\<lambda>v. version v = ver) line)"
    by (simp add: filter_map comp_def)
  have "distinct (map version line)"
    using assms by (rule sorted_wrt_distinct)
  then have "length (filter (\<lambda>v. version v = ver) line) \<le> 1"
    by (rule filter_distinct_le_1)
  with flt show "production_consistent (Some ver) (map ?f line)"
    by (auto simp: production_consistent_def)
  assume "\<forall>r \<in> set line. version r \<noteq> ver"
  then have "filter (\<lambda>v. version v = ver) line = []"
    by (simp add: filter_empty_conv)
  with flt show "production_consistent p (map ?f line)"
    unfolding production_consistent_def
    by (metis (no_types, lifting) filter_False filter_empty_conv length_0_conv list.simps(8) zero_le_one zero_order(1))
qed

lemma promote_preserves_invariant:
  assumes "registry_invariant (registry s)"
  shows "registry_invariant (registry (snd (promote_to_production flt t_saved s name ver)))"
proof (cases "map_of (models (registry s)) name")
  case None
  with assms show ?thesis by (simp add: promote_to_production_def)
next
  case (Some line)
  let ?f = "\<lambda>v. v\<lparr>is_production := (version v = ver)\<rparr>"
  let ?models = "AList.update name (map ?f line) (models (registry s))"
  from assms Some have srt: "sorted_wrt version_lt (map version line)"
    unfolding registry_invariant_iff by simp
  note pl = promoted_line[OF srt, of ver]
  show ?thesis
  proof (cases "\<exists>v \<in> set line. version v = ver")
    case False
    then have reg: "registry (snd (promote_to_production flt t_saved s name ver))
        = (registry s)\<lparr>models := ?models\<rparr>"
      using Some by (simp add: promote_to_production_def Let_def)
    from False have nf: "\<forall>r \<in> set line. version r \<noteq> ver" by simp
    show ?thesis
      unfolding registry_invariant_iff reg
    proof (intro allI impI)
      fix n l
      assume l: "map_of (models ((registry s)\<lparr>models := ?models\<rparr>)) n = Some l"
      show "sorted_wrt version_lt (map version l)
         \<and> production_consistent (map_of (current_production ((registry s)\<lparr>models := ?models\<rparr>)) n) l"
      proof (cases "n = name")
        case True
        with l have "l = map ?f line" by (simp add: update_conv')
        with pl(1) pl(3)[OF nf] show ?thesis by simp
      next
        case False
        with l have "map_of (models (registry s)) n = Some l" by (simp add: update_conv')
        with assms show ?thesis unfolding registry_invariant_iff by simp
      qed
    qed
  next
    case True
    let ?reg = "(registry s)\<lparr>models := ?models,
                  current_production := AList.update name ver (current_production (registry s))\<rparr>"
    from True Some have "snd (promote_to_production flt t_saved s name ver)
        = snd (save_registry flt t_saved (s\<lparr>registry := ?reg\<rparr>))"
      by (simp add: promote_to_production_def Let_def)
    then have eq: "registry_invariant (registry (snd (promote_to_production flt t_saved s name ver)))
        = registry_invariant ?reg"
      by (simp add: save_registry_invariant)
    have "registry_invariant ?reg"
      unfolding registry_invariant_iff
    proof (intro allI impI)
      fix n l
      assume l: "map_of (models ?reg) n = Some l"
      show "sorted_wrt version_lt (map version l)
         \<and> production_consistent (map_of (current_production ?reg) n) l"
      proof (cases "n = name")
        case True
        with l have "l = map ?f line" by (simp add: update_conv')
        with pl(1,2) True show ?thesis by (simp add: update_conv')
      next
        case False
        with l have "map_of (models (registry s)) n = Some l" by (simp add: update_conv')
        with assms False show ?thesis unfolding registry_invariant_iff by (simp add: update_conv')
      qed
    qed
    with eq show ?thesis by simp
  qed
qed

lemma perform_preserves_invariant:
  "registry_invariant (registry s) \<Longrightarrow> registry_invariant (registry (perform s c))"
  by (cases c) (simp_all add: register_preserves_invariant promote_preserves_invariant)

lemma run_preserves_invariant:
  "registry_invariant (registry s) \<Longrightarrow> registry_invariant (registry (run s calls))"
  unfolding run_def
  by (induction calls arbitrary: s) (simp_all add: perform_preserves_invariant)

text \<open>
  Claim C1. Start from a registry that satisfies the invariants of the data model (in
  every line the versions strictly increase and the production flags agree with the
  pointer; the empty registry is one). After any sequence of \<open>register_model\<close> and
  \<open>promote_to_production\<close> calls, whether they return or raise and whatever their
  commits do, every model name has zero or one record whose production flag is set, and
  the version of such a record is the production pointer of that model name.
\<close>

theorem production_unique:
  assumes "registry_invariant (registry s)"
  shows "\<forall>name line. map_of (models (registry (run s calls))) name = Some line \<longrightarrow>
           (length (filter is_production line) = 0 \<or> length (filter is_production line) = 1)
           \<and> (\<forall>r \<in> set line. is_production r \<longrightarrow>
                 map_of (current_production (registry (run s calls))) name = Some (version r))"
proof (intro allI impI)
  fix name line
  assume l: "map_of (models (registry (run s calls))) name = Some line"
  from run_preserves_invariant[OF assms, of calls] l
  have "production_consistent (map_of (current_production (registry (run s calls))) name) line"
    unfolding registry_invariant_iff by blast
  then show "(length (filter is_production line) = 0 \<or> length (filter is_production line) = 1)
           \<and> (\<forall>r \<in> set line. is_production r \<longrightarrow>
                 map_of (current_production (registry (run s calls))) name = Some (version r))"
    unfolding production_consistent_def by (simp add: le_Suc_eq)
qed

lemma scenario_flags:
  "map_option (map is_production) (map_of (models (registry scenario_state)) ''risk_scorer'')
     = Some [False, True, False]"
  by code_simp

theorem production_unique_witness:
  "registry_invariant (registry (init empty_fs))
   \<and> (\<exists>line. map_of (models (registry scenario_state)) ''risk_scorer'' = Some line
         \<and> map is_production line = [False, True, False]
         \<and> (length (filter is_production line) = 0 \<or> length (filter is_production line) = 1)
         \<and> (\<exists>r \<in> set line. is_production r
               \<and> map_of (current_production (registry scenario_state)) ''risk_scorer''
                   = Some (version r)))"
proof -
  have h: "registry_invariant (registry (init empty_fs))"
    by (simp add: registry_invariant_def init_def empty_fs_def load_registry_def empty_registry_def)
  from production_unique[OF h,
      of "[Register NoFault ''2024-01-01T00:00:00'' ''2024-01-01T00:00:01'' sample_args,
           Register NoFault ''2024-01-02T00:00:00'' ''2024-01-02T00:00:01'' sample_args,
           Register NoFault ''2024-01-03T00:00:00'' ''2024-01-03T00:00:01'' sample_args,
           Promote NoFault ''2024-01-04T00:00:00'' ''risk_scorer'' ''1.0.1'']"]
  have all: "\<forall>name line. map_of (models (registry scenario_state)) name = Some line \<longrightarrow>
           (length (filter is_production line) = 0 \<or> length (filter is_production line) = 1)
           \<and> (\<forall>r \<in> set line. is_production r \<longrightarrow>
                 map_of (current_production (registry scenario_state)) name = Some (version r))"
    unfolding scenario_state_def .
  obtain line where
    l: "map_of (models (registry scenario_state)) ''risk_scorer'' = Some line"
    and f: "map is_production line = [False, True, False]"
    using scenario_flags by (auto simp: map_option_case split: option.splits)
  from f have "True \<in> set (map is_production line)" by simp
  then obtain r where r: "r \<in> set line" "is_production r" by auto
  from all l have
    c: "length (filter is_production line) = 0 \<or> length (filter is_production line) = 1"
    and p: "\<forall>r \<in> set line. is_production r \<longrightarrow>
           map_of (current_production (registry scenario_state)) ''risk_scorer'' = Some (version r)"
    by blast+
  from p r have ex: "\<exists>r \<in> set line. is_production r
      \<and> map_of (current_production (registry scenario_state)) ''risk_scorer'' = Some (version r)"
    by blast
  have "\<exists>line. map_of (models (registry scenario_state)) ''risk_scorer'' = Some line
         \<and> map is_production line = [False, True, False]
         \<and> (length (filter is_production line) = 0 \<or> length (filter is_production line) = 1)
         \<and> (\<exists>r \<in> set line. is_production r
               \<and> map_of (current_production (registry scenario_state)) ''risk_scorer''
                   = Some (version r))"
    by (rule exI[of _ line]) (intro conjI l f c ex)
  with h show ?thesis by (simp only: simp_thms)
qed

end
